theory Spec2Isabelle
  imports Complex_Main "HOL-Library.Word"
begin

section \<open>Data model\<close>

text \<open>
  The scanner reads a file as Python \<open>bytes\<close>: a sequence of values in \<open>0..255\<close>.
  Python \<open>float\<close> arithmetic is modelled by exact real arithmetic: \<open>1.0 * count / total\<close>
  is the quotient of the two naturals and \<open>math.log(p, 256)\<close> is \<open>log 256 p\<close>. The entropy
  of the model is the exact value that the float computation approximates; the two differ
  by rounding, so a bound that the exact value meets with equality (such as \<open>\<le> 1\<close>) is a
  fact about the exact value only.
\<close>

type_synonym byte = "8 word"

text \<open>
  Both programs report their results with \<open>print\<close>. A run is modelled by the list of
  lines it prints, in order, one constructor per \<open>print\<close> statement of the source;
  a line carries the values formatted into it (colour codes and number formatting are
  left out).
\<close>

datatype status = CLEAN | SUSPICIOUS | MALICIOUS | BENIGN

datatype exn = IndexError | ValueError | TypeError | ModelError string

datatype line =
    Error_File_not_found string
  | Error_reading_file string
  | Scanning string
  | Analysis_Results
  | File_Size nat
  | Entropy real
  | Verdict status
  | Confidence real
  | Model_inference_failed exn
  | Using_Heuristic_Analysis
  | Reason string

section \<open>scanner.py\<close>

subsection \<open>calculate_entropy\<close>

definition calculate_entropy :: "byte list \<Rightarrow> real" where
  "calculate_entropy data =
     (if data = [] then 0
      else
        let byte_counts = fold (\<lambda>byte cs. cs[unat byte := cs ! unat byte + 1]) data
                            (replicate 256 (0::nat));
            total = length data
        in fold (\<lambda>count entropy.
                   if count = 0 then entropy
                   else let p = real count / real total
                        in entropy - p * log 256 p)
             byte_counts 0)"

subsection \<open>SimpleScanner._heuristic_scan\<close>

definition heuristic_scan :: "real \<Rightarrow> nat \<Rightarrow> line list" where
  "heuristic_scan entropy file_size =
     Using_Heuristic_Analysis #
     (if entropy > 7 then
        [Verdict SUSPICIOUS,
         Reason ''High entropy detected (> 7.0), indicating packed or encrypted code.'']
      else if entropy < 3 \<and> file_size > 10000 then
        [Verdict SUSPICIOUS,
         Reason ''Low entropy for large file, possible text disguise.'']
      else
        [Verdict CLEAN,
         Reason ''Entropy levels within normal parameters.''])"

subsection \<open>SimpleScanner.scan_file\<close>

text \<open>
  The loaded model is an opaque unpickled object. What its methods return is taken to be
  a NumPy value: a scalar or an \<open>ndarray\<close> of any depth.
\<close>

datatype pyval = Num real | Arr "pyval list"

record model =
  predict :: "real list list \<Rightarrow> exn + pyval"
  predict_proba :: "(real list list \<Rightarrow> exn + pyval) option"

text \<open>
  The operations that the \<open>try\<close> block applies to these values. \<open>x[0]\<close> raises on a
  scalar and on an empty array. The truth value of a comparison is defined when the
  result has exactly one element and raises \<open>ValueError\<close> otherwise (for an empty result
  this is the behaviour of current NumPy). \<open>max\<close> iterates over its argument, keeping the
  first element until a later one tests greater. \<open>* 100\<close> works elementwise. The format
  \<open>{confidence:.2f}\<close> is accepted by a number and raises \<open>TypeError\<close> for an array.
\<close>

fun leaves :: "pyval \<Rightarrow> real list" where
  "leaves (Num r) = [r]"
| "leaves (Arr xs) = concat (map leaves xs)"

definition single :: "pyval \<Rightarrow> real option" where
  "single v = (case leaves v of [r] \<Rightarrow> Some r | _ \<Rightarrow> None)"

fun index0 :: "pyval \<Rightarrow> exn + pyval" where
  "index0 (Num r) = Inl IndexError"
| "index0 (Arr []) = Inl IndexError"
| "index0 (Arr (x # xs)) = Inr x"

definition truth_gt :: "pyval \<Rightarrow> pyval \<Rightarrow> exn + bool" where
  "truth_gt y best =
     (case (single y, single best) of
        (Some a, Some b) \<Rightarrow> Inr (a > b)
      | _ \<Rightarrow> Inl ValueError)"

definition truth_eq_1 :: "pyval \<Rightarrow> exn + bool" where
  "truth_eq_1 label = (case single label of Some r \<Rightarrow> Inr (r = 1) | None \<Rightarrow> Inl ValueError)"

fun py_max :: "pyval \<Rightarrow> exn + pyval" where
  "py_max (Num r) = Inl TypeError"
| "py_max (Arr []) = Inl ValueError"
| "py_max (Arr (x # ys)) =
     fold (\<lambda>y acc. case acc of
                    Inl e \<Rightarrow> Inl e
                  | Inr best \<Rightarrow>
                      (case truth_gt y best of
                         Inl e \<Rightarrow> Inl e
                       | Inr is_greater \<Rightarrow> Inr (if is_greater then y else best)))
       ys (Inr x)"

fun times_100 :: "pyval \<Rightarrow> pyval" where
  "times_100 (Num r) = Num (r * 100)"
| "times_100 (Arr xs) = Arr (map times_100 xs)"

fun format_2f :: "pyval \<Rightarrow> exn + real" where
  "format_2f (Num r) = Inr r"
| "format_2f (Arr xs) = Inl TypeError"

text \<open>
  The body of the \<open>try\<close> block of \<open>scan_file\<close>: the lines it prints and the exception
  that ends it, if any. The verdict line is printed before the confidence is formatted,
  so the block can raise after it has printed a verdict.
\<close>

definition model_scan :: "model \<Rightarrow> real list list \<Rightarrow> line list \<times> exn option" where
  "model_scan m features =
     (case predict m features of
        Inl e \<Rightarrow> ([], Some e)
      | Inr prediction \<Rightarrow>
          (case (case predict_proba m of
                   Some proba \<Rightarrow>
                     (case proba features of
                        Inl e \<Rightarrow> Inl e
                      | Inr prob \<Rightarrow>
                          (case index0 prob of
                             Inl e \<Rightarrow> Inl e
                           | Inr row \<Rightarrow>
                               (case py_max row of
                                  Inl e \<Rightarrow> Inl e
                                | Inr mx \<Rightarrow> Inr (times_100 mx))))
                 | None \<Rightarrow> Inr (Num 100)) of
             Inl e \<Rightarrow> ([], Some e)
           | Inr confidence \<Rightarrow>
               (case index0 prediction of
                  Inl e \<Rightarrow> ([], Some e)
                | Inr label \<Rightarrow>
                    (case truth_eq_1 label of
                       Inl e \<Rightarrow> ([], Some e)
                     | Inr is_malicious \<Rightarrow>
                         let status = (if is_malicious then MALICIOUS else BENIGN)
                         in (case format_2f confidence of
                               Inl e \<Rightarrow> ([Verdict status], Some e)
                             | Inr c \<Rightarrow> ([Verdict status, Confidence c], None))))))"

text \<open>
  What \<open>scan_file\<close> finds at \<open>file_path\<close>: nothing, a file whose \<open>open\<close> or \<open>read\<close>
  raises (with the exception's text), or a file with its contents.
\<close>

datatype file_at = Not_Found | Unreadable string | Contents "byte list"

text \<open>
  \<open>scan_file\<close>, with the module flag \<open>HAS_NUMPY\<close> as a parameter and with the outcome of
  the truth test of \<open>self.model\<close> in \<open>if self.model and HAS_NUMPY\<close> as a parameter:
  \<open>Some m\<close> when the field holds an object \<open>m\<close> that tests true, \<open>None\<close> when the field
  is \<open>None\<close> or holds an object that tests false.
\<close>

definition scan_file :: "bool \<Rightarrow> model option \<Rightarrow> string \<Rightarrow> file_at \<Rightarrow> line list" where
  "scan_file HAS_NUMPY self_model file_path f =
     (case f of
        Not_Found \<Rightarrow> [Error_File_not_found file_path]
      | Unreadable e \<Rightarrow> [Scanning file_path, Error_reading_file e]
      | Contents data \<Rightarrow>
          let file_size = length data;
              entropy = calculate_entropy data
          in [Scanning file_path, Analysis_Results, File_Size file_size, Entropy entropy] @
             (case self_model of
                Some m \<Rightarrow>
                  if HAS_NUMPY then
                    (case model_scan m [[entropy, real file_size]] of
                       (printed, None) \<Rightarrow> printed
                     | (printed, Some e) \<Rightarrow>
                         printed @ Model_inference_failed e # heuristic_scan entropy file_size)
                  else heuristic_scan entropy file_size
              | None \<Rightarrow> heuristic_scan entropy file_size))"

text \<open>
  The truth test itself stands outside the \<open>try\<close> block and comes after the four header
  lines. The field \<open>self.model\<close> is \<open>None\<close> or an unpickled object, whose truth test
  yields true or false or raises; an exception raised there leaves \<open>scan_file\<close>.
  \<open>scan_file_object\<close> is \<open>scan_file\<close> with that test: it returns the lines printed
  and the exception that escaped, if any.
\<close>

datatype self_model = Is_None | Object "exn + bool" model

definition scan_file_object ::
    "bool \<Rightarrow> self_model \<Rightarrow> string \<Rightarrow> file_at \<Rightarrow> line list \<times> exn option" where
  "scan_file_object HAS_NUMPY self_model file_path f =
     (case f of
        Contents data \<Rightarrow>
          (case self_model of
             Is_None \<Rightarrow> (scan_file HAS_NUMPY None file_path f, None)
           | Object truth m \<Rightarrow>
               (case truth of
                  Inl e \<Rightarrow>
                    ([Scanning file_path, Analysis_Results, File_Size (length data),
                      Entropy (calculate_entropy data)], Some e)
                | Inr b \<Rightarrow>
                    (scan_file HAS_NUMPY (if b then Some m else None) file_path f, None)))
      | _ \<Rightarrow> (scan_file HAS_NUMPY None file_path f, None))"

section \<open>visualize_entropy.py\<close>

subsection \<open>calculate_local_entropy\<close>

text \<open>
  The loop \<open>for i in range(0, len(data), window_size)\<close> for a positive step: \<open>i\<close>
  starts at 0 and advances by \<open>window_size\<close> while it is below \<open>len(data)\<close>. The
  slice \<open>data[i:i+window_size]\<close> is \<open>take window_size (drop i data)\<close>.
\<close>

function local_entropy_loop :: "byte list \<Rightarrow> nat \<Rightarrow> nat \<Rightarrow> real list \<Rightarrow> real list" where
  "local_entropy_loop data window_size i entropies =
     (if 0 < window_size \<and> i < length data then
        let chunk = take window_size (drop i data)
        in if chunk = [] then entropies
           else
             let byte_counts = fold (\<lambda>byte cs. cs[unat byte := cs ! unat byte + 1]) chunk
                                 (replicate 256 (0::nat));
                 len = length chunk;
                 entropy = fold (\<lambda>count entropy.
                                   if count = 0 then entropy
                                   else let p = real count / real len
                                        in entropy - p * log 256 p)
                             byte_counts 0
             in local_entropy_loop data window_size (i + window_size) (entropies @ [entropy])
      else entropies)"
  by pat_completeness auto
termination
  by (relation "measure (\<lambda>(data, window_size, i, entropies). length data - i)") auto

text \<open>
  \<open>window_size\<close> is a Python int: \<open>range\<close> raises \<open>ValueError\<close> for a step of 0 and
  is empty for a negative step.
\<close>

definition calculate_local_entropy :: "byte list \<Rightarrow> int \<Rightarrow> exn + real list" where
  "calculate_local_entropy data window_size =
     (if int (length data) < window_size then Inr [0]
      else if window_size = 0 then Inl ValueError
      else if window_size < 0 then Inr []
      else Inr (local_entropy_loop data (nat window_size) 0 []))"

declare local_entropy_loop.simps [simp del]

section \<open>Observations on a run\<close>

text \<open>
  The verdict of a run is what its \<open>Verdict\<close>, \<open>Reason\<close> and \<open>Confidence\<close> lines say;
  \<open>reported_verdict\<close> keeps these lines and drops the rest.
\<close>

fun is_Verdict :: "line \<Rightarrow> bool" where
  "is_Verdict (Verdict s) = True"
| "is_Verdict _ = False"

fun is_report :: "line \<Rightarrow> bool" where
  "is_report (Verdict s) = True"
| "is_report (Reason r) = True"
| "is_report (Confidence c) = True"
| "is_report _ = False"

definition reported_verdict :: "line list \<Rightarrow> line list" where
  "reported_verdict out = filter is_report out"

text \<open>The number of bytes of \<open>data\<close> with value \<open>i\<close>: what the histogram loop counts.\<close>

definition cnt :: "byte list \<Rightarrow> nat \<Rightarrow> nat" where
  "cnt data i = length (filter (\<lambda>b. unat b = i) data)"

section \<open>The histogram and the entropy sum\<close>

lemma hist_length:
  "length (fold (\<lambda>(byte::byte) cs. cs[unat byte := cs ! unat byte + 1]) data cs) = length cs"
  by (induction data arbitrary: cs) auto

lemma unat_byte_less: "unat (b::byte) < 256"
  using unsigned_less [of b, where 'a = nat] by simp

lemma hist_nth:
  "length cs = 256 \<Longrightarrow> i < 256 \<Longrightarrow>
   fold (\<lambda>(byte::byte) cs. cs[unat byte := cs ! unat byte + 1]) data cs ! i = cs ! i + cnt data i"
proof (induction data arbitrary: cs)
  case Nil
  then show ?case by (simp add: cnt_def)
next
  case (Cons b data)
  have "unat b < length cs" using Cons.prems unat_byte_less [of b] by simp
  then show ?case using Cons
    by (auto simp: cnt_def nth_list_update)
qed

lemma fold_entropy:
  "fold (\<lambda>count entropy. if count = 0 then entropy
                          else let p = real count / n in entropy - p * log 256 p) cs e
   = e - (\<Sum>c\<leftarrow>cs. (real c / n) * log 256 (real c / n))"
  by (induction cs arbitrary: e) (auto simp: Let_def)

lemma sum_cnt: "(\<Sum>i<256. cnt data i) = length data"
proof (induction data)
  case Nil
  then show ?case by (simp add: cnt_def)
next
  case (Cons b data)
  have "(\<Sum>i<256. cnt (b # data) i) = (\<Sum>i<256. cnt data i + (if i = unat b then 1 else 0))"
    by (rule sum.cong) (auto simp: cnt_def)
  also have "\<dots> = (\<Sum>i<256. cnt data i) + (\<Sum>i<256. if i = unat b then 1 else 0)"
    by (simp add: sum.distrib)
  also have "(\<Sum>i<256. if i = unat b then 1 else 0) = (1::nat)"
    using unat_byte_less [of b] by simp
  finally show ?case using Cons by simp
qed

lemma calculate_entropy_sum:
  "calculate_entropy data =
     - (\<Sum>i<256. (real (cnt data i) / real (length data)) * log 256 (real (cnt data i) / real (length data)))"
proof (cases "data = []")
  case True
  then show ?thesis by (simp add: calculate_entropy_def)
next
  case False
  let ?h = "fold (\<lambda>(byte::byte) cs. cs[unat byte := cs ! unat byte + 1]) data (replicate 256 (0::nat))"
  let ?g = "\<lambda>c. (real c / real (length data)) * log 256 (real c / real (length data))"
  have len: "length ?h = 256" unfolding hist_length by simp
  have "calculate_entropy data = - (\<Sum>c\<leftarrow>?h. ?g c)"
    using False fold_entropy [of "real (length data)" ?h 0]
    by (simp add: calculate_entropy_def Let_def)
  also have "(\<Sum>c\<leftarrow>?h. ?g c) = (\<Sum>i = 0..<256. ?g (?h ! i))"
    using sum_list_sum_nth [of "map ?g ?h"] len by simp
  also have "\<dots> = (\<Sum>i<256. ?g (cnt data i))"
    unfolding lessThan_atLeast0
  proof (rule sum.cong)
    fix i :: nat assume "i \<in> {0..<256}"
    then have "?h ! i = cnt data i" using hist_nth [of "replicate 256 0" i data] by simp
    then show "?g (?h ! i) = ?g (cnt data i)" by simp
  qed simp
  finally show ?thesis .
qed

lemma cnt_le_length: "cnt data i \<le> length data"
  by (simp add: cnt_def)

lemma plogp_nonpos: "0 \<le> p \<Longrightarrow> p \<le> 1 \<Longrightarrow> p * log 256 p \<le> 0"
  by (cases "p = 0") (auto simp: mult_le_0_iff)

lemma plogp_eq_0_iff: "0 \<le> p \<Longrightarrow> p * log 256 p = 0 \<longleftrightarrow> p = 0 \<or> p = 1"
proof -
  assume "0 \<le> p"
  have nz: "log 256 p \<noteq> 0" if "0 < p" "p \<noteq> 1"
  proof (cases "p < 1")
    case True
    then have "log 256 p < 0" using that by simp
    then show ?thesis by simp
  next
    case False
    then have "0 < log 256 p" using that by simp
    then show ?thesis by simp
  qed
  show ?thesis
  proof (cases "p = 0 \<or> p = 1")
    case True
    then show ?thesis by auto
  next
    case False
    then have "0 < p" "p \<noteq> 1" using \<open>0 \<le> p\<close> by auto
    then show ?thesis using nz by simp
  qed
qed

lemma plogp_upper:
  assumes "0 \<le> p"
  shows "- (p * log 256 p) \<le> p + (1 / 256 - p) / ln 256"
proof (cases "p = 0")
  case True
  then show ?thesis by simp
next
  case False
  with assms have p: "0 < p" by simp
  have l: "0 < ln (256::real)" by simp
  have "ln (1 / (256 * p)) \<le> 1 / (256 * p) - 1"
    using ln_le_minus_one [of "1 / (256 * p)"] p by simp
  then have "p * ln (1 / (256 * p)) \<le> p * (1 / (256 * p) - 1)"
    using p by (simp add: mult_left_mono)
  also have "p * (1 / (256 * p) - 1) = 1 / 256 - p"
    using p by (simp add: field_simps)
  also have "ln (1 / (256 * p)) = - ln 256 - ln p"
    using p by (simp add: ln_div ln_mult)
  finally have "- (p * ln p) \<le> p * ln 256 + (1 / 256 - p)"
    by (simp add: algebra_simps)
  then have "- (p * ln p) / ln 256 \<le> (p * ln 256 + (1 / 256 - p)) / ln 256"
    using l divide_right_mono [of "- (p * ln p)" "p * ln 256 + (1 / 256 - p)" "ln 256"] by simp
  also have "(p * ln 256 + (1 / 256 - p)) / ln 256 = p + (1 / 256 - p) / ln 256"
    using l by (simp add: add_divide_distrib)
  finally show ?thesis by (simp add: log_def)
qed

lemma sum_p:
  "data \<noteq> [] \<Longrightarrow> (\<Sum>i<256. real (cnt data i) / real (length data)) = 1"
proof -
  assume "data \<noteq> []"
  have "(\<Sum>i<256. real (cnt data i) / real (length data)) = real (\<Sum>i<256. cnt data i) / real (length data)"
    by (simp add: sum_divide_distrib)
  then show ?thesis using \<open>data \<noteq> []\<close> by (simp add: sum_cnt)
qed

lemma calculate_entropy_nonneg: "0 \<le> calculate_entropy data"
proof -
  have "(\<Sum>i<256. (real (cnt data i) / real (length data)) * log 256 (real (cnt data i) / real (length data))) \<le> 0"
  proof (rule sum_nonpos)
    fix i
    show "real (cnt data i) / real (length data) * log 256 (real (cnt data i) / real (length data)) \<le> 0"
      by (rule plogp_nonpos) (simp_all add: cnt_le_length divide_le_eq_1)
  qed
  then show ?thesis by (simp add: calculate_entropy_sum)
qed

lemma calculate_entropy_le_1: "calculate_entropy data \<le> 1"
proof (cases "data = []")
  case True
  then show ?thesis by (simp add: calculate_entropy_def)
next
  case False
  let ?p = "\<lambda>i. real (cnt data i) / real (length data)"
  have "calculate_entropy data = (\<Sum>i<256. - (?p i * log 256 (?p i)))"
    by (simp add: calculate_entropy_sum sum_negf)
  also have "\<dots> \<le> (\<Sum>i<256. ?p i + (1 / 256 - ?p i) / ln 256)"
    by (rule sum_mono) (rule plogp_upper, simp)
  also have "\<dots> = (\<Sum>i<256. ?p i) + ((\<Sum>i<(256::nat). 1 / 256) - (\<Sum>i<256. ?p i)) / ln 256"
    by (simp add: sum.distrib sum_subtractf sum_divide_distrib [symmetric])
  also have "\<dots> = 1"
    using sum_p [OF False] by simp
  finally show ?thesis .
qed

lemma calculate_entropy_eq_0_iff_cnt:
  "calculate_entropy data = 0 \<longleftrightarrow> (\<forall>i<256. cnt data i = 0 \<or> cnt data i = length data)"
proof (cases "data = []")
  case True
  then show ?thesis by (simp add: calculate_entropy_def cnt_def)
next
  case False
  let ?p = "\<lambda>i. real (cnt data i) / real (length data)"
  have p01: "0 \<le> ?p i" "?p i \<le> 1" for i
    by (simp_all add: cnt_le_length divide_le_eq_1)
  have frac: "?p i = 0 \<or> ?p i = 1 \<longleftrightarrow> cnt data i = 0 \<or> cnt data i = length data" for i
    using False by auto
  have step: "- (?p i * log 256 (?p i)) = 0 \<longleftrightarrow> ?p i = 0 \<or> ?p i = 1" for i
    using plogp_eq_0_iff [OF p01(1), of i] by (simp only: neg_equal_0_iff_equal)
  have "calculate_entropy data = 0 \<longleftrightarrow> (\<Sum>i<256. - (?p i * log 256 (?p i))) = 0"
    by (simp add: calculate_entropy_sum sum_negf)
  also have "\<dots> \<longleftrightarrow> (\<forall>i\<in>{..<256}. - (?p i * log 256 (?p i)) = 0)"
  proof (rule sum_nonneg_eq_0_iff)
    fix i
    have "?p i * log 256 (?p i) \<le> 0" by (rule plogp_nonpos [OF p01])
    then show "0 \<le> - (?p i * log 256 (?p i))" by linarith
  qed simp
  also have "\<dots> \<longleftrightarrow> (\<forall>i<256. ?p i = 0 \<or> ?p i = 1)"
    by (simp only: step lessThan_iff Ball_def)
  also have "\<dots> \<longleftrightarrow> (\<forall>i<256. cnt data i = 0 \<or> cnt data i = length data)"
    by (simp only: frac)
  finally show ?thesis .
qed

lemma cnt_replicate: "cnt (replicate n v) i = (if unat v = i then n else 0)"
  by (simp add: cnt_def)

lemma cnt_all_or_nothing_iff:
  "(\<forall>i<256. cnt data i = 0 \<or> cnt data i = length data) \<longleftrightarrow>
   data = [] \<or> (\<exists>n v. 1 \<le> n \<and> data = replicate n v)"
proof
  assume all: "\<forall>i<256. cnt data i = 0 \<or> cnt data i = length data"
  show "data = [] \<or> (\<exists>n v. 1 \<le> n \<and> data = replicate n v)"
  proof (cases data)
    case Nil
    then show ?thesis by simp
  next
    case (Cons v rest)
    have "cnt data (unat v) \<noteq> 0" using Cons by (simp add: cnt_def)
    then have full: "length (filter (\<lambda>b. unat b = unat v) data) = length data"
      using all unat_byte_less [of v] by (auto simp: cnt_def)
    have "\<forall>b\<in>set data. b = v"
    proof
      fix b assume b: "b \<in> set data"
      show "b = v"
      proof (rule ccontr)
        assume "b \<noteq> v"
        then have "\<not> unat b = unat v" by (simp add: word_unat_eq_iff)
        then have "length (filter (\<lambda>b. unat b = unat v) data) < length data"
          using b by (rule_tac length_filter_less)
        then show False using full by simp
      qed
    qed
    then have "replicate (length data) v = data" by (rule replicate_length_same)
    moreover have "1 \<le> length data" using Cons by simp
    ultimately show ?thesis by metis
  qed
next
  assume "data = [] \<or> (\<exists>n v. 1 \<le> n \<and> data = replicate n v)"
  then show "\<forall>i<256. cnt data i = 0 \<or> cnt data i = length data"
  proof
    assume "data = []"
    then show ?thesis by (simp add: cnt_def)
  next
    assume "\<exists>n v. 1 \<le> n \<and> data = replicate n v"
    then obtain n v where "data = replicate n v" by blast
    then show ?thesis by (simp add: cnt_replicate)
  qed
qed

lemma count_list_distinct: "distinct xs \<Longrightarrow> count_list xs x = (if x \<in> set xs then 1 else 0)"
  by (induction xs) auto

lemma cnt_count_list: "i < 256 \<Longrightarrow> cnt data i = count_list data (word_of_nat i)"
proof -
  assume i: "i < 256"
  have "unat b = i \<longleftrightarrow> word_of_nat i = b" for b :: byte
  proof
    assume "unat b = i" then show "word_of_nat i = b" by auto
  next
    assume "word_of_nat i = b"
    then have "unat b = unat (word_of_nat i :: byte)" by simp
    also have "\<dots> = i" using i by (simp add: unat_of_nat)
    finally show "unat b = i" .
  qed
  then show ?thesis by (simp add: cnt_def count_list_eq_length_filter)
qed

lemma entropy_uniform:
  assumes "length b = 256" and "\<And>v. count_list b v = 1"
  shows "calculate_entropy b = 1"
proof -
  have c: "cnt b i = 1" if "i < 256" for i using that assms(2) by (simp add: cnt_count_list)
  have "(\<Sum>i<256. (real (cnt b i) / real (length b)) * log 256 (real (cnt b i) / real (length b)))
        = (\<Sum>i<(256::nat). (1 / 256) * log 256 (1 / 256))"
    by (rule sum.cong) (simp_all add: c assms(1))
  also have "\<dots> = log 256 (1 / 256)" by simp
  also have "\<dots> = - 1" by (simp add: log_divide)
  finally show ?thesis by (simp add: calculate_entropy_sum)
qed

lemma all_bytes_once: "count_list (map word_of_nat [0..<256]) (v::byte) = 1"
proof -
  have inj: "inj_on (word_of_nat :: nat \<Rightarrow> byte) (set [0..<256])"
    by (rule inj_onI) (simp add: word_of_nat_eq_iff take_bit_nat_eq_self)
  have "unat v \<in> set [0..<256]" using unat_byte_less [of v] by simp
  then have "count_list (map word_of_nat [0..<256]) (word_of_nat (unat v) :: byte) = count_list [0..<256] (unat v)"
    using inj by (rule_tac count_list_inj_map)
  also have "\<dots> = 1" using unat_byte_less [of v] by (simp add: count_list_distinct)
  finally show ?thesis by simp
qed

section \<open>The window loop\<close>

lemma loop_stop:
  "\<not> (0 < w \<and> i < length data) \<Longrightarrow> local_entropy_loop data w i acc = acc"
  using local_entropy_loop.simps [of data w i acc] by auto

lemma loop_step:
  assumes "0 < w" and "i < length data"
  shows "local_entropy_loop data w i acc =
         local_entropy_loop data w (i + w) (acc @ [calculate_entropy (take w (drop i data))])"
proof -
  have ne: "take w (drop i data) \<noteq> []" using assms by simp
  show ?thesis
    using local_entropy_loop.simps [of data w i acc] assms ne
    by (simp add: calculate_entropy_def Let_def)
qed

lemma chunk_count_step:
  assumes "0 < w" and "i < (n::nat)"
  shows "(n - i + w - 1) div w = Suc ((n - (i + w) + w - 1) div w)"
proof (cases "i + w \<le> n")
  case True
  have e: "n - i + w - 1 = (n - (i + w) + w - 1) + w" using True assms by arith
  have "(n - i + w - 1) div w = ((n - (i + w) + w - 1) + w) div w"
    using arg_cong [OF e, of "\<lambda>x. x div w"] .
  also have "\<dots> = (n - (i + w) + w - 1) div w + 1"
    by (rule div_add_self2) (use assms in arith)
  finally show ?thesis by (simp only: Suc_eq_plus1)
next
  case False
  have a: "n - (i + w) + w - 1 = w - 1" using False by arith
  have b: "n - i + w - 1 = (n - i - 1) + w" using assms by arith
  have c: "n - i - 1 < w" using False assms by arith
  have d: "w - 1 < w" using assms by arith
  have "(n - i + w - 1) div w = ((n - i - 1) + w) div w"
    using arg_cong [OF b, of "\<lambda>x. x div w"] .
  also have "\<dots> = (n - i - 1) div w + 1"
    by (rule div_add_self2) (use assms in arith)
  also have "(n - i - 1) div w = 0" using c by (rule div_less)
  finally have l: "(n - i + w - 1) div w = Suc 0" by (simp only: Suc_eq_plus1 add_0)
  have "(n - (i + w) + w - 1) div w = (w - 1) div w"
    using arg_cong [OF a, of "\<lambda>x. x div w"] .
  also have "\<dots> = 0" using d by (rule div_less)
  finally show ?thesis using l by (simp only:)
qed

lemma loop_closed:
  assumes "0 < w"
  shows "local_entropy_loop data w i acc =
         acc @ map (\<lambda>k. calculate_entropy (take w (drop (i + k * w) data)))
                 [0..<(length data - i + w - 1) div w]"
proof (induction "length data - i" arbitrary: i acc rule: less_induct)
  case less
  show ?case
  proof (cases "i < length data")
    case False
    then have "(length data - i + w - 1) div w = 0" using assms by simp
    then show ?thesis using False by (simp add: loop_stop)
  next
    case True
    let ?m = "(length data - (i + w) + w - 1) div w"
    have m: "(length data - i + w - 1) div w = Suc ?m"
      using assms True by (rule chunk_count_step)
    have "length data - (i + w) < length data - i" using assms True by simp
    then have ih: "local_entropy_loop data w (i + w) acc' =
        acc' @ map (\<lambda>k. calculate_entropy (take w (drop (i + w + k * w) data))) [0..<?m]" for acc'
      by (rule less)
    have "[0..<Suc ?m] = 0 # map Suc [0..<?m]"
      by (simp add: upt_conv_Cons map_Suc_upt del: upt_Suc)
    then have "map (\<lambda>k. calculate_entropy (take w (drop (i + k * w) data))) [0..<Suc ?m] =
        calculate_entropy (take w (drop i data)) #
        map (\<lambda>k. calculate_entropy (take w (drop (i + w + k * w) data))) [0..<?m]"
      by (simp add: comp_def add.assoc del: upt_Suc)
    then show ?thesis
      unfolding m loop_step [OF assms True] ih by simp
  qed
qed

lemma ceiling_div:
  assumes "0 < (w::nat)"
  shows "\<lceil>real n / real w\<rceil> = int ((n + w - 1) div w)"
proof (rule ceiling_unique)
  let ?m = "(n + w - 1) div w"
  have lo: "?m * w \<le> n + w - 1" by simp
  have hi: "n + w - 1 < (Suc ?m) * w"
    using assms dividend_less_div_times [of w "n + w - 1"] by (simp add: algebra_simps)
  from hi have "n \<le> ?m * w" using assms by simp
  then have "real n \<le> real (?m * w)" by (rule of_nat_mono)
  then show "real n / real w \<le> of_int (int ?m)" using assms by (simp add: field_simps)
  show "of_int (int ?m) - 1 < real n / real w"
  proof (cases "n = 0")
    case True
    then show ?thesis using assms by simp
  next
    case False
    have "?m * w < n + w" using lo False assms by linarith
    then have "real (?m * w) < real (n + w)" by (simp only: of_nat_less_iff)
    then show ?thesis using assms by (simp add: field_simps)
  qed
qed

lemma calculate_local_entropy_closed:
  assumes "0 < w" and "w \<le> int (length b)"
  shows "calculate_local_entropy b w =
         Inr (map (\<lambda>k. calculate_entropy (take (nat w) (drop (k * nat w) b)))
                [0..<(length b + nat w - 1) div nat w])"
  using assms loop_closed [of "nat w" b 0 "[]"] by (simp add: calculate_local_entropy_def)

section \<open>The model path\<close>


lemma model_scan_predict_raises:
  "predict m features = Inl e \<Longrightarrow> model_scan m features = ([], Some e)"
  by (simp add: model_scan_def)

lemma heuristic_scan_one_verdict: "length (filter is_Verdict (heuristic_scan entropy file_size)) = 1"
  by (simp add: heuristic_scan_def)


section \<open>A worked window profile\<close>

lemma local_entropy_example:
  "calculate_local_entropy [1, 2, 3] 2 = Inr [calculate_entropy [1, 2], calculate_entropy [3]]"
proof -
  have "[0..<(length [1, 2, 3 :: byte] + nat 2 - 1) div nat 2] = [0, 1]"
    by (simp add: upt_rec)
  then show ?thesis
    using calculate_local_entropy_closed [of 2 "[1, 2, 3]"] by simp
qed

section \<open>Claims\<close>

subsection \<open>C1: the high-entropy rule of the heuristic\<close>

text \<open>
  At entropy 0.9 and size 1000 the heuristic prints \<open>CLEAN\<close>, not \<open>SUSPICIOUS\<close>: its
  first test is \<open>entropy > 7.0\<close>, and it prints no confidence line.
\<close>

theorem C1_counterexample:
  "(875 / 1000 :: real) < 9 / 10 \<and>
   heuristic_scan (9 / 10) 1000 =
     [Using_Heuristic_Analysis, Verdict CLEAN, Reason ''Entropy levels within normal parameters.''] \<and>
   Verdict SUSPICIOUS \<notin> set (heuristic_scan (9 / 10) 1000) \<and>
   Confidence 100 \<notin> set (heuristic_scan (9 / 10) 1000)"
  by (simp add: heuristic_scan_def)

text \<open>
  C1, as amended: for every entropy above 7.0 and every size, the heuristic prints the
  verdict \<open>SUSPICIOUS\<close> with the reason "High entropy detected (> 7.0), indicating
  packed or encrypted code." and prints no confidence line.
\<close>

theorem C1_high_entropy:
  "7 < entropy \<Longrightarrow>
   heuristic_scan entropy file_size =
     [Using_Heuristic_Analysis, Verdict SUSPICIOUS,
      Reason ''High entropy detected (> 7.0), indicating packed or encrypted code.''] \<and>
   (\<forall>c. Confidence c \<notin> set (heuristic_scan entropy file_size))"
  by (simp add: heuristic_scan_def)

theorem C1_high_entropy_witness:
  "(7::real) < 15 / 2 \<and>
   heuristic_scan (15 / 2) 1000 =
     [Using_Heuristic_Analysis, Verdict SUSPICIOUS,
      Reason ''High entropy detected (> 7.0), indicating packed or encrypted code.'']"
proof -
  have h: "(7::real) < 15 / 2" by simp
  show ?thesis using h C1_high_entropy [OF h, of 1000] by simp
qed

subsection \<open>C2: the low-entropy rule and the default of the heuristic\<close>

text \<open>
  At entropy 0.5 and size 20000 the heuristic prints \<open>SUSPICIOUS\<close> with the low-entropy
  reason, not \<open>CLEAN\<close>: its second test is \<open>entropy < 3.0 and file_size > 10000\<close>.
\<close>

theorem C2_counterexample:
  "(1 / 2 :: real) \<le> 875 / 1000 \<and> \<not> ((1 / 2 :: real) < 375 / 1000 \<and> (10000::nat) < 20000) \<and>
   heuristic_scan (1 / 2) 20000 =
     [Using_Heuristic_Analysis, Verdict SUSPICIOUS,
      Reason ''Low entropy for large file, possible text disguise.''] \<and>
   Verdict CLEAN \<notin> set (heuristic_scan (1 / 2) 20000)"
  by (simp add: heuristic_scan_def)

text \<open>
  C2, as amended: for every entropy of at most 0.875, the heuristic prints \<open>SUSPICIOUS\<close>
  with the reason "Low entropy for large file, possible text disguise." when the entropy
  is below 0.375 and the size above 10000 bytes, prints \<open>CLEAN\<close> with the reason "Entropy
  levels within normal parameters." when the size is at most 10000 bytes, and prints no
  confidence line in any case.
\<close>

theorem C2_low_entropy:
  "entropy \<le> 875 / 1000 \<Longrightarrow>
   (entropy < 375 / 1000 \<and> 10000 < file_size \<longrightarrow>
      heuristic_scan entropy file_size =
        [Using_Heuristic_Analysis, Verdict SUSPICIOUS,
         Reason ''Low entropy for large file, possible text disguise.'']) \<and>
   (file_size \<le> 10000 \<longrightarrow>
      heuristic_scan entropy file_size =
        [Using_Heuristic_Analysis, Verdict CLEAN,
         Reason ''Entropy levels within normal parameters.'']) \<and>
   (\<forall>c. Confidence c \<notin> set (heuristic_scan entropy file_size))"
  by (simp add: heuristic_scan_def)

theorem C2_low_entropy_witness:
  "(1 / 5 :: real) \<le> 875 / 1000 \<and> (1 / 5 :: real) < 375 / 1000 \<and> (10000::nat) < 20000 \<and>
   heuristic_scan (1 / 5) 20000 =
     [Using_Heuristic_Analysis, Verdict SUSPICIOUS,
      Reason ''Low entropy for large file, possible text disguise.''] \<and>
   (1 / 2 :: real) \<le> 875 / 1000 \<and> (500::nat) \<le> 10000 \<and>
   heuristic_scan (1 / 2) 500 =
     [Using_Heuristic_Analysis, Verdict CLEAN,
      Reason ''Entropy levels within normal parameters.'']"
proof -
  have a: "(1 / 5 :: real) \<le> 875 / 1000" by simp
  have b: "(1 / 2 :: real) \<le> 875 / 1000" by simp
  show ?thesis
    using C2_low_entropy [OF a, of 20000] C2_low_entropy [OF b, of 500] by simp
qed

subsection \<open>C3: fallback when the model's prediction raises\<close>

text \<open>
  C3: when a model is loaded and its \<open>predict\<close> raises on the feature vector of the file,
  \<open>scan_file\<close> catches the exception, prints the failure and runs the heuristic on the
  same entropy and size; the verdict it reports is the one the heuristic reports on that
  entropy and size.
\<close>

theorem C3_fallback:
  assumes "predict m [[calculate_entropy data, real (length data)]] = Inl e"
  shows "scan_file HAS_NUMPY (Some m) file_path (Contents data) =
           [Scanning file_path, Analysis_Results, File_Size (length data),
            Entropy (calculate_entropy data)] @
           (if HAS_NUMPY then [Model_inference_failed e] else []) @
           heuristic_scan (calculate_entropy data) (length data)
         \<and> reported_verdict (scan_file HAS_NUMPY (Some m) file_path (Contents data)) =
           reported_verdict (heuristic_scan (calculate_entropy data) (length data))"
  using model_scan_predict_raises [OF assms]
  by (simp add: scan_file_def Let_def reported_verdict_def)

theorem C3_fallback_witness:
  "predict \<lparr>predict = (\<lambda>features. Inl (ModelError ''shape mismatch'')), predict_proba = None\<rparr>
     [[calculate_entropy [], real (length ([] :: byte list))]] = Inl (ModelError ''shape mismatch'') \<and>
   reported_verdict
     (scan_file True
        (Some \<lparr>predict = (\<lambda>features. Inl (ModelError ''shape mismatch'')), predict_proba = None\<rparr>)
        ''sample.bin'' (Contents [])) =
   reported_verdict (heuristic_scan (calculate_entropy []) (length ([] :: byte list)))"
proof -
  have h: "predict \<lparr>predict = (\<lambda>features. Inl (ModelError ''shape mismatch'')), predict_proba = None\<rparr>
     [[calculate_entropy [], real (length ([] :: byte list))]] = Inl (ModelError ''shape mismatch'')"
    by simp
  from h C3_fallback [OF h, of True "''sample.bin''", THEN conjunct2]
  show ?thesis by (rule conjI)
qed

subsection \<open>C4: one verdict for each scan\<close>

text \<open>
  C4 asks for exactly one verdict from every scan of a readable file. The code misses
  it in two places. With a model whose \<open>predict\<close> returns \<open>[1]\<close> and whose \<open>predict_proba\<close>
  returns the three-dimensional array \<open>[[[0.3, 0.7]]]\<close>, \<open>max(prob[0])\<close> is the row
  \<open>[0.3, 0.7]\<close>; the \<open>try\<close> block prints \<open>MALICIOUS\<close>, the format \<open>{confidence:.2f}\<close> then
  raises, and the \<open>except\<close> branch runs the heuristic, which prints \<open>CLEAN\<close>: two verdicts.
  With a loaded object whose truth test raises, the exception leaves \<open>scan_file\<close> after
  the header lines: no verdict.
\<close>

theorem C4_two_verdicts:
  "scan_file True
     (Some \<lparr>predict = (\<lambda>features. Inr (Arr [Num 1])),
            predict_proba = Some (\<lambda>features. Inr (Arr [Arr [Arr [Num (3 / 10), Num (7 / 10)]]]))\<rparr>)
     ''sample.bin'' (Contents [65]) =
     [Scanning ''sample.bin'', Analysis_Results, File_Size 1, Entropy (calculate_entropy [65]),
      Verdict MALICIOUS, Model_inference_failed TypeError,
      Using_Heuristic_Analysis, Verdict CLEAN, Reason ''Entropy levels within normal parameters.''] \<and>
   filter is_Verdict
     (scan_file True
        (Some \<lparr>predict = (\<lambda>features. Inr (Arr [Num 1])),
            predict_proba = Some (\<lambda>features. Inr (Arr [Arr [Arr [Num (3 / 10), Num (7 / 10)]]]))\<rparr>)
        ''sample.bin'' (Contents [65])) = [Verdict MALICIOUS, Verdict CLEAN] \<and>
   scan_file_object True (Object (Inl ValueError) \<lparr>predict = (\<lambda>features. Inr (Arr [Num 0])), predict_proba = None\<rparr>)
     ''sample.bin'' (Contents [65]) =
     ([Scanning ''sample.bin'', Analysis_Results, File_Size 1, Entropy (calculate_entropy [65])],
      Some ValueError)"
proof -
  have "calculate_entropy [65] \<le> 1" by (rule calculate_entropy_le_1)
  then have h: "heuristic_scan (calculate_entropy [65]) (Suc 0) =
      [Using_Heuristic_Analysis, Verdict CLEAN, Reason ''Entropy levels within normal parameters.'']"
    by (simp add: heuristic_scan_def)
  have ms: "model_scan \<lparr>predict = (\<lambda>features. Inr (Arr [Num 1])),
            predict_proba = Some (\<lambda>features. Inr (Arr [Arr [Arr [Num (3 / 10), Num (7 / 10)]]]))\<rparr>
      features = ([Verdict MALICIOUS], Some TypeError)" for features
    by (simp add: model_scan_def single_def truth_eq_1_def)
  show ?thesis
    by (simp add: scan_file_def scan_file_object_def Let_def ms h)
qed

subsection \<open>C5: entropy zero\<close>

text \<open>
  C5: the entropy of a buffer is 0 exactly when the buffer is empty or is one byte value
  repeated \<open>n \<ge> 1\<close> times.
\<close>

theorem C5_zero_entropy:
  "calculate_entropy b = 0 \<longleftrightarrow> b = [] \<or> (\<exists>n v. 1 \<le> n \<and> b = replicate n v)"
  by (simp only: calculate_entropy_eq_0_iff_cnt cnt_all_or_nothing_iff)

subsection \<open>C6: entropy of the uniform buffer\<close>

text \<open>
  C6: a buffer of length 256 that holds each of the 256 byte values exactly once has
  entropy 1, hence within \<open>1e-9\<close> of 1.
\<close>

theorem C6_uniform_entropy:
  assumes "length b = 256" and "\<forall>v. count_list b v = 1"
  shows "calculate_entropy b = 1 \<and> \<bar>calculate_entropy b - 1\<bar> \<le> 1 / 10 ^ 9"
proof -
  have "calculate_entropy b = 1" using assms by (intro entropy_uniform) simp_all
  then show ?thesis by simp
qed

theorem C6_uniform_entropy_witness:
  "length (map word_of_nat [0..<256] :: byte list) = 256 \<and>
   (\<forall>v. count_list (map word_of_nat [0..<256] :: byte list) v = 1) \<and>
   \<bar>calculate_entropy (map word_of_nat [0..<256]) - 1\<bar> \<le> 1 / 10 ^ 9"
proof -
  have l: "length (map word_of_nat [0..<256] :: byte list) = 256" by simp
  have c: "\<forall>v. count_list (map word_of_nat [0..<256] :: byte list) v = 1"
    using all_bytes_once by blast
  from C6_uniform_entropy [OF l c] l c show ?thesis by blast
qed

subsection \<open>C8: length of the window profile\<close>

text \<open>
  C8: for a window size \<open>w > 0\<close>, a buffer of at least \<open>w\<close> bytes gives a profile of
  exactly \<open>ceil(len(b) / w)\<close> values, and a shorter buffer (the empty one included) gives
  the one-element profile \<open>[0]\<close>.
\<close>

theorem C8_window_count:
  assumes "0 < w"
  shows "(w \<le> int (length b) \<longrightarrow>
            (\<exists>es. calculate_local_entropy b w = Inr es \<and>
                  int (length es) = \<lceil>real (length b) / real_of_int w\<rceil>)) \<and>
         (int (length b) < w \<longrightarrow> calculate_local_entropy b w = Inr [0])"
proof (intro conjI impI)
  assume le: "w \<le> int (length b)"
  have "\<lceil>real (length b) / real (nat w)\<rceil> = int ((length b + nat w - 1) div nat w)"
    using assms by (intro ceiling_div) simp
  moreover have "real (nat w) = real_of_int w" using assms by simp
  ultimately show "\<exists>es. calculate_local_entropy b w = Inr es \<and>
                  int (length es) = \<lceil>real (length b) / real_of_int w\<rceil>"
    using calculate_local_entropy_closed [OF assms le] by simp
next
  assume "int (length b) < w"
  then show "calculate_local_entropy b w = Inr [0]" by (simp add: calculate_local_entropy_def)
qed

theorem C8_window_count_witness:
  "(0::int) < 2 \<and> (2::int) \<le> int (length [1, 2, 3 :: byte]) \<and>
   (\<exists>es. calculate_local_entropy [1, 2, 3] 2 = Inr es \<and>
         int (length es) = \<lceil>real (length [1, 2, 3 :: byte]) / real_of_int 2\<rceil>) \<and>
   (0::int) < 256 \<and> int (length [7 :: byte]) < 256 \<and>
   calculate_local_entropy [7] 256 = Inr [0]"
proof -
  have a: "(0::int) < 2" and b: "(0::int) < 256" by simp_all
  have c: "(2::int) \<le> int (length [1, 2, 3 :: byte])" by simp
  have d: "int (length [7 :: byte]) < 256" by simp
  from C8_window_count [OF a, of "[1, 2, 3]"] C8_window_count [OF b, of "[7]"] a b c d
  show ?thesis by blast
qed

subsection \<open>C9: each window is measured on its own\<close>

text \<open>
  C9: for a window size \<open>w > 0\<close> and a buffer of at least \<open>w\<close> bytes, the \<open>i\<close>-th value of
  the profile is \<open>calculate_entropy\<close> of the slice \<open>b[i*w : (i+1)*w]\<close>, the trailing slice
  being measured over its own shorter length.
\<close>

theorem C9_window_entropy:
  assumes "0 < w" and "w \<le> int (length b)"
  shows "\<exists>es. calculate_local_entropy b w = Inr es \<and>
           (\<forall>i<length es. es ! i = calculate_entropy (take (nat w) (drop (i * nat w) b)))"
  using calculate_local_entropy_closed [OF assms] by simp

theorem C9_window_entropy_witness:
  "(0::int) < 2 \<and> (2::int) \<le> int (length [1, 2, 3 :: byte]) \<and>
   (\<exists>es. calculate_local_entropy [1, 2, 3] 2 = Inr es \<and>
      es ! 0 = calculate_entropy (take (nat 2) (drop (0 * nat 2) [1, 2, 3])) \<and>
      es ! 1 = calculate_entropy (take (nat 2) (drop (1 * nat 2) [1, 2, 3])))"
proof -
  have a: "(0::int) < 2" by simp
  have c: "(2::int) \<le> int (length [1, 2, 3 :: byte])" by simp
  from C9_window_entropy [OF a c] obtain es where
    es: "calculate_local_entropy [1, 2, 3] 2 = Inr es"
    and nth: "\<forall>i<length es. es ! i = calculate_entropy (take (nat 2) (drop (i * nat 2) [1, 2, 3]))"
    by blast
  have "es = [calculate_entropy [1, 2], calculate_entropy [3]]"
    using es local_entropy_example by simp
  then have "length es = 2" by simp
  then have "es ! 0 = calculate_entropy (take (nat 2) (drop (0 * nat 2) [1, 2, 3]))"
    and "es ! 1 = calculate_entropy (take (nat 2) (drop (1 * nat 2) [1, 2, 3]))"
    using nth by simp_all
  then show ?thesis using a c es by blast
qed

subsection \<open>C10: the heuristic inside a scan\<close>


end
